theory Spec2Isabelle
  imports Main "HOL-Library.Sublist"
begin

section \<open>Python strings\<close>

text \<open>
  A Python \<^verbatim>\<open>str\<close> is a sequence of Unicode code points, so it is modelled as a list of
  natural numbers (one per code point), not as a list of bytes. String literals of the
  source are ASCII; \<open>str\<close> turns an ASCII literal into its code points.
\<close>

type_synonym pystr = "nat list"

definition str :: "string \<Rightarrow> pystr" where
  "str s = map of_char s"

text \<open>
  The line boundaries of \<^verbatim>\<open>str.splitlines\<close>: LF, VT, FF, CR, FS, GS, RS, NEL, LINE SEPARATOR
  and PARAGRAPH SEPARATOR. CR immediately followed by LF is one boundary.
\<close>

definition is_linebreak :: "nat \<Rightarrow> bool" where
  "is_linebreak c \<longleftrightarrow> c \<in> {10, 11, 12, 13, 28, 29, 30, 133, 8232, 8233}"

text \<open>
  The characters \<^verbatim>\<open>str.isspace\<close> accepts, which are the ones \<^verbatim>\<open>rstrip()\<close> without an
  argument removes.
\<close>

definition is_space :: "nat \<Rightarrow> bool" where
  "is_space c \<longleftrightarrow>
     (9 \<le> c \<and> c \<le> 13) \<or> (28 \<le> c \<and> c \<le> 32) \<or> c = 133 \<or> c = 160 \<or> c = 5760 \<or>
     (8192 \<le> c \<and> c \<le> 8202) \<or> c = 8232 \<or> c = 8233 \<or> c = 8239 \<or> c = 8287 \<or> c = 12288"

text \<open>
  \<^verbatim>\<open>s.splitlines()\<close>: scan for the next line boundary, emit the text before it, go on
  after it; text left after the last boundary is emitted only when it is not empty.
  \<open>cur\<close> is the line read so far.
\<close>

function splitlines_from :: "pystr \<Rightarrow> pystr \<Rightarrow> pystr list" where
  "splitlines_from cur [] = (if cur = [] then [] else [cur])"
| "splitlines_from cur (c # cs) =
     (if c = 13 \<and> (case cs of [] \<Rightarrow> False | d # _ \<Rightarrow> d = 10)
        then cur # splitlines_from [] (tl cs)
      else if is_linebreak c then cur # splitlines_from [] cs
      else splitlines_from (cur @ [c]) cs)"
  by pat_completeness auto
termination
  by (relation "measure (\<lambda>(cur, s). length s)") auto

definition splitlines :: "pystr \<Rightarrow> pystr list" where
  "splitlines s = splitlines_from [] s"

text \<open>\<^verbatim>\<open>s.rstrip(chars)\<close> and \<^verbatim>\<open>s.rstrip()\<close>.\<close>

definition rstrip_chars :: "pystr \<Rightarrow> pystr \<Rightarrow> pystr" where
  "rstrip_chars chars s = rev (dropWhile (\<lambda>c. c \<in> set chars) (rev s))"

definition rstrip :: "pystr \<Rightarrow> pystr" where
  "rstrip s = rev (dropWhile is_space (rev s))"

text \<open>
  \<^verbatim>\<open>[l for l, _ in groupby(xs)]\<close>: the key of every run of consecutive equal elements.
\<close>

function groupby_keys :: "'a list \<Rightarrow> 'a list" where
  "groupby_keys [] = []"
| "groupby_keys (x # xs) = x # groupby_keys (dropWhile (\<lambda>y. y = x) xs)"
  by pat_completeness auto
termination
  by (relation "measure length") (auto simp: length_dropWhile_le less_Suc_eq_le)

text \<open>\<^verbatim>\<open>sep.join(xs)\<close>.\<close>

fun join :: "pystr \<Rightarrow> pystr list \<Rightarrow> pystr" where
  "join sep [] = []"
| "join sep [x] = x"
| "join sep (x # y # ys) = x @ sep @ join sep (y # ys)"

section \<open>The output normalizer\<close>

text \<open>The spinner glyphs \<^verbatim>\<open>'/-\\|'\<close>: slash, hyphen, backslash, bar.\<close>

definition spinner :: pystr where
  "spinner = [47, 45, 92, 124]"

text \<open>
  \<^verbatim>\<open>_cleanup_stdout\<close> (an Isabelle name cannot start with an underscore). The logging
  calls do not change the result and are left out.
\<close>

definition cleanup_stdout :: "pystr \<Rightarrow> pystr" where
  "cleanup_stdout raw_stdout =
     (let stdout_lines = splitlines raw_stdout;
          stdout_lines = map (rstrip_chars spinner) stdout_lines;
          stdout_lines = map rstrip stdout_lines;
          stdout_lines = groupby_keys stdout_lines
      in join [10] stdout_lines)"

section \<open>Collaborators and records\<close>

text \<open>
  The values a Salt execution function may hand back, as far as this module looks at
  them: it only tests the value of \<^verbatim>\<open>pkg.info_installed\<close> for truth.
\<close>

datatype pyval =
    PyNone
  | PyBool bool
  | PyInt int
  | PyStr pystr
  | PyDict "(pystr \<times> pyval) list"

text \<open>Python's truth test, as applied by \<^verbatim>\<open>not\<close> and \<^verbatim>\<open>if\<close>.\<close>

fun truthy :: "pyval \<Rightarrow> bool" where
  "truthy PyNone = False"
| "truthy (PyBool b) = b"
| "truthy (PyInt i) = (i \<noteq> 0)"
| "truthy (PyStr s) = (s \<noteq> [])"
| "truthy (PyDict d) = (d \<noteq> [])"

text \<open>
  The dictionary \<^verbatim>\<open>cmd.run_all\<close> returns:
  \<^verbatim>\<open>{"pid": 123, "retcode": 0, "stdout": "abc", "stderr": "abc"}\<close>.
\<close>

record cmd_output =
  pid :: int
  retcode :: int
  stdout :: pystr
  stderr :: pystr

text \<open>
  The ambient \<^verbatim>\<open>__salt__\<close> and \<^verbatim>\<open>__opts__\<close> tables, as parameters. Each
  collaborator is called at most once in an operation, so a function of its arguments
  stands for what the host answers at that moment:
  \<^item> \<open>pkg_info_installed pkg failhard\<close> is \<^verbatim>\<open>__salt__["pkg.info_installed"](pkg, failhard=...)\<close>;
  \<^item> \<open>opts_test\<close> is \<^verbatim>\<open>__opts__["test"]\<close>;
  \<^item> \<open>cmd_run_all cmd\<close> is \<^verbatim>\<open>__salt__["cmd.run_all"](cmd=cmd)\<close>;
  \<^item> \<open>cmd_retcode cmd ignore_retcode\<close> is \<^verbatim>\<open>__salt__["cmd.retcode"](cmd=cmd, ignore_retcode=...)\<close>.
  The collaborators are taken to return; a collaborator that raises is outside this model.
\<close>

record salt_env =
  pkg_info_installed :: "pystr \<Rightarrow> bool \<Rightarrow> pyval"
  opts_test :: bool
  cmd_run_all :: "pystr \<Rightarrow> cmd_output"
  cmd_retcode :: "pystr \<Rightarrow> bool \<Rightarrow> int"

text \<open>The calls an operation makes to the collaborators, in order.\<close>

datatype salt_call =
    PkgInfoInstalled pystr bool
  | CmdRunAll pystr
  | CmdRetcode pystr bool

text \<open>
  The state return dictionary \<^verbatim>\<open>ret\<close>. \<open>result\<close> is \<^verbatim>\<open>True\<close>, \<^verbatim>\<open>False\<close> or
  \<^verbatim>\<open>None\<close>; \<open>changes\<close> is a dictionary from strings to strings.
\<close>

record ret =
  name :: pystr
  result :: "bool option"
  changes :: "pystr \<rightharpoonup> pystr"
  comment :: pystr

section \<open>The presence prober\<close>

text \<open>
  \<^verbatim>\<open>_snapd_is_installed\<close>: the value of the collaborator, as it is, together with the
  call made.
\<close>

definition snapd_is_installed :: "salt_env \<Rightarrow> pyval \<times> salt_call list" where
  "snapd_is_installed e =
     (pkg_info_installed e (str ''snapd'') False, [PkgInfoInstalled (str ''snapd'') False])"

section \<open>The purge operation\<close>

text \<open>\<^verbatim>\<open>purged(name)\<close>; \<open>nm\<close> is the argument \<^verbatim>\<open>name\<close>.\<close>

definition purged :: "salt_env \<Rightarrow> pystr \<Rightarrow> ret \<times> salt_call list" where
  \<open>purged e nm =
     (let ret0 = \<lparr>name = nm, result = None, changes = Map.empty, comment = []\<rparr>;
          (installed, calls1) = snapd_is_installed e
      in if \<not> truthy installed then
           (ret0\<lparr>result := Some True,
                 comment := str ''Cannot purge snap "'' @ nm @
                            str ''" because snapd is not installed.''\<rparr>, calls1)
         else if opts_test e then
           (ret0\<lparr>result := None, comment := str ''Test mode is not supported.''\<rparr>, calls1)
         else
           let cmd = str ''snap remove --purge '' @ nm;
               out = cmd_run_all e cmd;
               calls2 = calls1 @ [CmdRunAll cmd]
           in if stderr out = str ''snap "'' @ nm @ str ''" is not installed'' then
                (ret0\<lparr>result := Some True,
                      comment := str ''Snap "'' @ nm @ str ''" is already removed.''\<rparr>, calls2)
              else
                let stdout' = cleanup_stdout (stdout out);
                    stderr' = stderr out
                in if retcode out \<noteq> 0 then
                     (ret0\<lparr>result := Some False,
                           comment := str ''Non-zero return code when purging snap "'' @ nm @
                                      str ''".'',
                           changes := [str ''stdout'' \<mapsto> stdout', str ''stderr'' \<mapsto> stderr']\<rparr>,
                      calls2)
                   else
                     let lcmd = str ''snap list '' @ nm;
                         is_still_installed = (cmd_retcode e lcmd True = 0);
                         calls3 = calls2 @ [CmdRetcode lcmd True]
                     in if is_still_installed then
                          (ret0\<lparr>result := Some False,
                                comment := str ''Purging snap "'' @ nm @
                                           str ''" was unsuccessful.'',
                                changes := [str ''stdout'' \<mapsto> stdout',
                                            str ''stderr'' \<mapsto> stderr']\<rparr>,
                           calls3)
                        else
                          (ret0\<lparr>result := Some True,
                                comment := str ''Snap "'' @ nm @
                                           str ''" was successfully purged.'',
                                changes := [str ''old'' \<mapsto> str ''installed'',
                                            str ''new'' \<mapsto> str ''removed'',
                                            str ''stdout'' \<mapsto> stdout',
                                            str ''stderr'' \<mapsto> stderr']\<rparr>,
                           calls3))\<close>

section \<open>The assertion operation\<close>

text \<open>
  \<^verbatim>\<open>assert_all_removed(name="assert_all_removed")\<close>. \<^verbatim>\<open>x or y\<close> on strings is \<open>x\<close>
  unless \<open>x\<close> is empty; \<^verbatim>\<open>s.startswith(p)\<close> is \<open>prefix p s\<close>.
\<close>

definition assert_all_removed :: "salt_env \<Rightarrow> pystr \<Rightarrow> ret \<times> salt_call list" where
  "assert_all_removed e nm =
     (let ret0 = \<lparr>name = nm, result = None, changes = Map.empty, comment = []\<rparr>;
          (installed, calls1) = snapd_is_installed e
      in if \<not> truthy installed then
           (ret0\<lparr>result := Some True,
                 comment := str ''Cannot check for installed snaps because snapd is not installed. Assuming that all snaps are removed.''\<rparr>,
            calls1)
         else
           let cmd = str ''snap list'';
               out = cmd_run_all e cmd;
               calls2 = calls1 @ [CmdRunAll cmd]
           in if stdout out \<noteq> [] then
                (ret0\<lparr>result := Some False,
                      comment := join [10]
                        [str ''It seems like at least one snap is still installed.'',
                         str ''Output:'',
                         stdout out,
                         str ''Errors:'',
                         (if stderr out \<noteq> [] then stderr out else str ''(no errors)'')]\<rparr>,
                 calls2)
              else if prefix (str ''No snaps are installed'') (stderr out) then
                (ret0\<lparr>result := Some True, comment := str ''No snaps are installed.''\<rparr>, calls2)
              else
                (ret0\<lparr>result := Some False,
                      comment := join [10]
                        [str ''Listing all installed snaps failed due to error.'',
                         stderr out]\<rparr>,
                 calls2))"

section \<open>Auxiliary definitions for the statements\<close>

text \<open>The lines \<^verbatim>\<open>_cleanup_stdout\<close> joins: the value of \<^verbatim>\<open>stdout_lines\<close> after its last step.\<close>

definition normalized_lines :: "pystr \<Rightarrow> pystr list" where
  "normalized_lines s = groupby_keys (map rstrip (map (rstrip_chars spinner) (splitlines s)))"

text \<open>
  The specification's reference for an input without redraw frames: the input's lines,
  each with trailing whitespace trimmed and nothing else done to them, joined by newlines.
\<close>

definition trimmed_lines :: "pystr \<Rightarrow> pystr" where
  "trimmed_lines s = join [10] (map rstrip (splitlines s))"

text \<open>The example of the source's comment: two redraw frames, each after a carriage return.\<close>

definition example_raw_stdout :: pystr where
  "example_raw_stdout =
     13 # str ''Removing snap abc     /'' @ 13 # str ''Removing snap abc     -''"

text \<open>
  Hosts for the concrete instances. On the first, snapd is installed, the removal command
  fails with exit code 1 and reports that the snap is not installed.
\<close>

definition env_not_installed_nonzero :: salt_env where
  \<open>env_not_installed_nonzero =
     \<lparr>pkg_info_installed = (\<lambda>pkg failhard. PyDict [(str ''snapd'', PyDict [])]),
      opts_test = False,
      cmd_run_all = (\<lambda>cmd. \<lparr>pid = 123, retcode = 1, stdout = [],
                              stderr = str ''snap "foo" is not installed''\<rparr>),
      cmd_retcode = (\<lambda>cmd ignore_retcode. 1)\<rparr>\<close>

text \<open>snapd is installed, the removal succeeds and the snap is gone afterwards.\<close>

definition env_purge_succeeds :: salt_env where
  "env_purge_succeeds =
     \<lparr>pkg_info_installed = (\<lambda>pkg failhard. PyDict [(str ''snapd'', PyDict [])]),
      opts_test = False,
      cmd_run_all = (\<lambda>cmd. \<lparr>pid = 123, retcode = 0, stdout = example_raw_stdout,
                              stderr = []\<rparr>),
      cmd_retcode = (\<lambda>cmd ignore_retcode. 1)\<rparr>"

text \<open>
  snapd is not installed: \<^verbatim>\<open>pkg.info_installed\<close> answers with an empty dictionary, as
  it does for a package it finds no information about when \<^verbatim>\<open>failhard\<close> is off.
\<close>

definition env_snapd_absent :: salt_env where
  "env_snapd_absent =
     \<lparr>pkg_info_installed = (\<lambda>pkg failhard. PyDict []),
      opts_test = False,
      cmd_run_all = (\<lambda>cmd. \<lparr>pid = 123, retcode = 127, stdout = [],
                              stderr = str ''snap: command not found''\<rparr>),
      cmd_retcode = (\<lambda>cmd ignore_retcode. 127)\<rparr>"

text \<open>snapd is installed and the state run is a test run.\<close>

definition env_test_mode :: salt_env where
  "env_test_mode =
     \<lparr>pkg_info_installed = (\<lambda>pkg failhard. PyDict [(str ''snapd'', PyDict [])]),
      opts_test = True,
      cmd_run_all = (\<lambda>cmd. \<lparr>pid = 123, retcode = 0, stdout = [], stderr = []\<rparr>),
      cmd_retcode = (\<lambda>cmd ignore_retcode. 1)\<rparr>"

text \<open>
  The host \<open>e\<close>, but with a package query that answers with the truth value
  (\<^verbatim>\<open>bool(...)\<close>) of what the package query of \<open>e\<close> answers.
\<close>

definition answering_bool :: "salt_env \<Rightarrow> salt_env" where
  "answering_bool e =
     e\<lparr>pkg_info_installed := (\<lambda>pkg failhard. PyBool (truthy (pkg_info_installed e pkg failhard)))\<rparr>"

section \<open>Facts about the string operations\<close>

lemma str_Nil [simp]: "str [] = []"
  by (simp add: str_def)

lemma str_Cons_neq_Nil [simp]: "str (c # cs) \<noteq> []"
  by (simp add: str_def)

lemma groupby_keys_remdups_adj: "groupby_keys xs = remdups_adj xs"
  by (induction xs rule: groupby_keys.induct) (simp_all add: remdups_adj_Cons')

text \<open>Stripping from the right, for any set of characters given as a predicate.\<close>

lemma rstrip_pred_id:
  "s = [] \<or> \<not> P (last s) \<Longrightarrow> rev (dropWhile P (rev s)) = s"
  by (cases s rule: rev_cases) auto

lemma rstrip_pred_last:
  "rev (dropWhile P (rev s)) = [] \<or> \<not> P (last (rev (dropWhile P (rev s))))"
proof (cases "dropWhile P (rev s) = []")
  case True
  then show ?thesis by simp
next
  case False
  then show ?thesis by (simp add: last_rev hd_dropWhile)
qed

lemma rstrip_chars_id: "l = [] \<or> last l \<notin> set chars \<Longrightarrow> rstrip_chars chars l = l"
  unfolding rstrip_chars_def by (rule rstrip_pred_id) simp

lemma rstrip_no_trailing_space: "rstrip s = [] \<or> \<not> is_space (last (rstrip s))"
  unfolding rstrip_def by (rule rstrip_pred_last)

lemma rstrip_idem: "rstrip (rstrip s) = rstrip s"
  using rstrip_no_trailing_space [of s] rstrip_pred_id [of "rstrip s" is_space]
  by (simp add: rstrip_def)

lemma set_rstrip: "set (rstrip s) \<subseteq> set s"
  by (auto simp: rstrip_def dest: set_dropWhileD)

lemma set_rstrip_chars: "set (rstrip_chars chars s) \<subseteq> set s"
  by (auto simp: rstrip_chars_def dest: set_dropWhileD)

lemma is_linebreak_simps [simp]: "is_linebreak 10" "is_linebreak 13"
  by (simp_all add: is_linebreak_def)

text \<open>No line of \<open>splitlines\<close> contains a line boundary.\<close>

lemma splitlines_from_no_break:
  "\<forall>c\<in>set cur. \<not> is_linebreak c \<Longrightarrow> l \<in> set (splitlines_from cur s) \<Longrightarrow>
   \<forall>c\<in>set l. \<not> is_linebreak c"
proof (induction cur s rule: splitlines_from.induct)
  case (1 cur)
  then show ?case by (cases "cur = []") simp_all
next
  case (2 cur c cs)
  let ?crlf = "c = 13 \<and> (case cs of [] \<Rightarrow> False | d # _ \<Rightarrow> d = 10)"
  show ?case
  proof (cases ?crlf)
    case True
    then have "l = cur \<or> l \<in> set (splitlines_from [] (tl cs))"
      using "2.prems"(2) by simp
    then show ?thesis
      using "2.IH"(1) [OF True] "2.prems"(1) by auto
  next
    case False
    show ?thesis
    proof (cases "is_linebreak c")
      case True
      then have "l = cur \<or> l \<in> set (splitlines_from [] cs)"
        using "2.prems"(2) False by simp
      then show ?thesis
        using "2.IH"(2) [OF False True] "2.prems"(1) by auto
    next
      case nb: False
      then have "l \<in> set (splitlines_from (cur @ [c]) cs)"
        using "2.prems"(2) False by simp
      then show ?thesis
        using "2.IH"(3) [OF False nb] "2.prems"(1) nb by auto
    qed
  qed
qed

lemma splitlines_no_break: "l \<in> set (splitlines s) \<Longrightarrow> c \<in> set l \<Longrightarrow> \<not> is_linebreak c"
  using splitlines_from_no_break [of "[]" l s] by (simp add: splitlines_def)

text \<open>Splitting a joined list of lines gives the lines back, but for an empty last line.\<close>

lemma splitlines_from_append:
  "\<forall>c\<in>set l. \<not> is_linebreak c \<Longrightarrow>
   splitlines_from cur (l @ rest) = splitlines_from (cur @ l) rest"
proof (induction l arbitrary: cur)
  case Nil
  then show ?case by simp
next
  case (Cons a l)
  then have "a \<noteq> 13" by auto
  with Cons show ?case by simp
qed

lemma splitlines_join:
  "\<forall>l\<in>set ls. \<forall>c\<in>set l. \<not> is_linebreak c \<Longrightarrow>
   splitlines (join [10] ls) = (if ls \<noteq> [] \<and> last ls = [] then butlast ls else ls)"
proof (induction ls rule: induct_list012)
  case 1
  then show ?case by (simp add: splitlines_def)
next
  case (2 x)
  then show ?case
    using splitlines_from_append [of x "[]" "[]"] by (simp add: splitlines_def)
next
  case (3 x y zs)
  have "splitlines (join [10] (x # y # zs)) = x # splitlines (join [10] (y # zs))"
    using 3 splitlines_from_append [of x "[]" "10 # join [10] (y # zs)"]
    by (simp add: splitlines_def)
  with 3 show ?case by simp
qed

lemma join_snoc_empty:
  "ls \<noteq> [] \<Longrightarrow> join [10] (ls @ [[]]) = join [10] ls @ [10]"
  by (induction ls rule: induct_list012) simp_all

lemma join_Cons_neq_Nil: "x \<noteq> [] \<Longrightarrow> join sep (x # xs) \<noteq> []"
  by (cases xs) simp_all

text \<open>Lengths after stripping, and joined lines told apart by their newlines.\<close>

lemma rstrip_pred_shorter:
  assumes "s \<noteq> []" and "P (last s)"
  shows "length (rev (dropWhile P (rev s))) < length s"
proof -
  from assms(1) obtain ys y where s: "s = ys @ [y]"
    by (cases s rule: rev_cases) auto
  with assms(2) have "dropWhile P (rev s) = dropWhile P (rev ys)" by simp
  moreover have "length (dropWhile P (rev ys)) \<le> length (rev ys)"
    by (rule length_dropWhile_le)
  ultimately show ?thesis using s by simp
qed

lemma map_eq_self_D: "map f xs = xs \<Longrightarrow> x \<in> set xs \<Longrightarrow> f x = x"
  by (induction xs) auto

lemma length_rstrip_le: "length (rstrip s) \<le> length s"
  using length_dropWhile_le [of is_space "rev s"] by (simp add: rstrip_def)

lemma last_join:
  "ls \<noteq> [] \<Longrightarrow> last ls \<noteq> [] \<Longrightarrow> join sep ls \<noteq> [] \<and> last (join sep ls) = last (last ls)"
  by (induction ls rule: induct_list012) auto

lemma filter_LF_Nil: "10 \<notin> set x \<Longrightarrow> filter (\<lambda>c. c = 10) x = ([] :: pystr)"
  by (induction x) auto

lemma count_LF_join:
  "\<forall>l\<in>set ls. 10 \<notin> set l \<Longrightarrow>
   length (filter (\<lambda>c. c = 10) (join [10] ls)) = length ls - 1"
  by (induction ls rule: induct_list012) (simp_all add: filter_LF_Nil)

lemma takeWhile_up_to_LF:
  "10 \<notin> set x \<Longrightarrow> takeWhile (\<lambda>c. c \<noteq> 10) (x @ 10 # r) = (x :: pystr)"
  by (induction x) auto

lemma split_at_first_LF:
  assumes "10 \<notin> set x" and "10 \<notin> set y" and "x @ 10 # r = y @ 10 # (r' :: pystr)"
  shows "x = y \<and> r = r'"
proof -
  have "takeWhile (\<lambda>c. c \<noteq> 10) (x @ 10 # r) = x"
    using assms(1) by (rule takeWhile_up_to_LF)
  moreover have "takeWhile (\<lambda>c. c \<noteq> 10) (y @ 10 # r') = y"
    using assms(2) by (rule takeWhile_up_to_LF)
  ultimately have "x = y" using assms(3) by simp
  with assms(3) show ?thesis by simp
qed

lemma join_inject:
  assumes "\<forall>l\<in>set xs. 10 \<notin> set l" and "\<forall>l\<in>set ys. 10 \<notin> set l"
    and "length xs = length ys" and "join [10] xs = join [10] ys"
  shows "xs = ys"
  using assms
proof (induction xs arbitrary: ys rule: induct_list012)
  case 1
  then show ?case by simp
next
  case (2 x)
  then show ?case by (cases ys) auto
next
  case (3 x y zs)
  from "3.prems"(3) obtain x' y' zs' where ys: "ys = x' # y' # zs'"
    by (cases ys; cases "tl ys") auto
  from "3.prems"(4) have "x @ 10 # join [10] (y # zs) = x' @ 10 # join [10] (y' # zs')"
    unfolding ys by simp
  then have "x = x' \<and> join [10] (y # zs) = join [10] (y' # zs')"
    using "3.prems"(1,2) unfolding ys by (intro split_at_first_LF) simp_all
  moreover from this have "y # zs = y' # zs'"
    using "3.prems"(1,2,3) unfolding ys by (intro "3.IH"(2)) simp_all
  ultimately show ?case unfolding ys by simp
qed

section \<open>Facts about the normalizer\<close>

lemma cleanup_stdout_lines: "cleanup_stdout s = join [10] (normalized_lines s)"
  by (simp add: cleanup_stdout_def normalized_lines_def Let_def)

lemma normalized_lines_no_break:
  "l \<in> set (normalized_lines s) \<Longrightarrow> c \<in> set l \<Longrightarrow> \<not> is_linebreak c"
  using set_rstrip set_rstrip_chars splitlines_no_break
  by (fastforce simp: normalized_lines_def groupby_keys_remdups_adj)

lemma normalized_lines_rstrip: "l \<in> set (normalized_lines s) \<Longrightarrow> rstrip l = l"
  by (auto simp: normalized_lines_def groupby_keys_remdups_adj rstrip_idem)

lemma normalized_lines_groupby: "groupby_keys (normalized_lines s) = normalized_lines s"
  using distinct_adj_altdef [of "normalized_lines s"]
  by (simp add: normalized_lines_def groupby_keys_remdups_adj)

lemma cleanup_stdout_Nil: "cleanup_stdout [] = []"
  by (simp add: cleanup_stdout_def splitlines_def)

lemma length_normalized_lines_le: "length (normalized_lines s) \<le> length (splitlines s)"
  using remdups_adj_length [of "map rstrip (map (rstrip_chars spinner) (splitlines s))"]
  by (simp add: normalized_lines_def groupby_keys_remdups_adj)

lemmas eval_defs =
  cleanup_stdout_def splitlines_def str_def is_linebreak_def is_space_def rstrip_def
  rstrip_chars_def spinner_def

section \<open>Claims about the output normalizer\<close>

text \<open>
  C1 (as stated, refuted): the normalizer is idempotent on every input. It is not. On
  \<^verbatim>\<open>"a- "\<close> the first pass strips no spinner glyph (the line ends in a space) and then
  the space, giving \<^verbatim>\<open>"a-"\<close>; the second pass strips the hyphen, giving \<^verbatim>\<open>"a"\<close>. On
  \<^verbatim>\<open>"a\n/"\<close> the first pass gives \<^verbatim>\<open>"a\n"\<close>, whose last line is empty; the second pass
  reads one line only and gives \<^verbatim>\<open>"a"\<close>.
\<close>

theorem cleanup_stdout_not_idempotent:
  "cleanup_stdout (cleanup_stdout (str ''a- '')) \<noteq> cleanup_stdout (str ''a- '') \<and>
   cleanup_stdout (cleanup_stdout (str ''a'' @ [10] @ str ''/'')) \<noteq>
     cleanup_stdout (str ''a'' @ [10] @ str ''/'')"
proof -
  have "cleanup_stdout (str ''a- '') = str ''a-''"
    by (simp add: eval_defs)
  moreover have "cleanup_stdout (str ''a-'') = str ''a''"
    by (simp add: eval_defs)
  moreover have "cleanup_stdout (str ''a'' @ [10] @ str ''/'') = str ''a'' @ [10]"
    by (simp add: eval_defs)
  moreover have "cleanup_stdout (str ''a'' @ [10]) = str ''a''"
    by (simp add: eval_defs)
  ultimately show ?thesis
    by (simp add: str_def)
qed

text \<open>
  C1 (amended): for every input whose normalized output has no line ending in a spinner
  glyph and does not end in a newline, normalizing the output again yields the same
  output.
\<close>

theorem cleanup_stdout_idempotent_if:
  assumes spin: "\<forall>l\<in>set (splitlines (cleanup_stdout s)). l = [] \<or> last l \<notin> set spinner"
    and nl: "cleanup_stdout s = [] \<or> last (cleanup_stdout s) \<noteq> 10"
  shows "cleanup_stdout (cleanup_stdout s) = cleanup_stdout s"
proof -
  let ?L = "normalized_lines s"
  have split: "splitlines (cleanup_stdout s) =
      (if ?L \<noteq> [] \<and> last ?L = [] then butlast ?L else ?L)"
    unfolding cleanup_stdout_lines
    by (rule splitlines_join) (auto dest: normalized_lines_no_break)
  show ?thesis
  proof (cases "?L \<noteq> [] \<and> last ?L = []")
    case True
    then have L: "?L = butlast ?L @ [[]]"
      using append_butlast_last_id [of ?L] by simp
    have "butlast ?L = []"
    proof (rule ccontr)
      assume "butlast ?L \<noteq> []"
      then have "join [10] (butlast ?L @ [[]]) = join [10] (butlast ?L) @ [10]"
        by (rule join_snoc_empty)
      with L have "cleanup_stdout s = join [10] (butlast ?L) @ [10]"
        by (simp add: cleanup_stdout_lines)
      with nl show False by simp
    qed
    with L have "?L = [[]]" by simp
    then have "cleanup_stdout s = []" by (simp add: cleanup_stdout_lines)
    then show ?thesis by (simp add: cleanup_stdout_Nil)
  next
    case False
    with split have eq: "splitlines (cleanup_stdout s) = ?L" by simp
    have "map (rstrip_chars spinner) ?L = ?L"
      using spin unfolding eq by (intro map_idI rstrip_chars_id) blast
    moreover have "map rstrip ?L = ?L"
      by (intro map_idI normalized_lines_rstrip)
    ultimately have "normalized_lines (cleanup_stdout s) = ?L"
      unfolding normalized_lines_def [of "cleanup_stdout s"] eq
      by (simp add: normalized_lines_groupby)
    then show ?thesis by (simp add: cleanup_stdout_lines)
  qed
qed

theorem cleanup_stdout_idempotent_if_witness:
  "cleanup_stdout example_raw_stdout = 10 # str ''Removing snap abc'' \<and>
   splitlines (cleanup_stdout example_raw_stdout) = [[], str ''Removing snap abc''] \<and>
   last (str ''Removing snap abc'') \<notin> set spinner \<and>
   last (cleanup_stdout example_raw_stdout) \<noteq> 10 \<and>
   cleanup_stdout (cleanup_stdout example_raw_stdout) = cleanup_stdout example_raw_stdout"
proof -
  have out: "cleanup_stdout example_raw_stdout = 10 # str ''Removing snap abc''"
    by (simp add: example_raw_stdout_def eval_defs)
  have lines: "splitlines (cleanup_stdout example_raw_stdout) = [[], str ''Removing snap abc'']"
    unfolding out by (simp add: splitlines_def str_def is_linebreak_def)
  have glyph: "last (str ''Removing snap abc'') \<notin> set spinner"
    by (simp add: str_def spinner_def)
  have spin: "\<forall>l\<in>set (splitlines (cleanup_stdout example_raw_stdout)).
      l = [] \<or> last l \<notin> set spinner"
    unfolding lines using glyph by simp
  have last: "last (cleanup_stdout example_raw_stdout) \<noteq> 10"
    unfolding out by (simp add: str_def)
  then have nl: "cleanup_stdout example_raw_stdout = [] \<or>
      last (cleanup_stdout example_raw_stdout) \<noteq> 10"
    by simp
  from cleanup_stdout_idempotent_if [OF spin nl] out lines glyph last show ?thesis
    by simp
qed

text \<open>
  The two conditions are also necessary: when normalizing the output again changes
  nothing, no line of the output ends in a spinner glyph and the output does not end in a
  newline.
\<close>

lemma cleanup_stdout_idempotent_only_if:
  assumes idem: "cleanup_stdout (cleanup_stdout s) = cleanup_stdout s"
  shows "(\<forall>l\<in>set (splitlines (cleanup_stdout s)). l = [] \<or> last l \<notin> set spinner) \<and>
         (cleanup_stdout s = [] \<or> last (cleanup_stdout s) \<noteq> 10)"
proof -
  let ?L = "normalized_lines s"
  let ?out = "cleanup_stdout s"
  let ?S = "splitlines ?out"
  let ?M = "normalized_lines ?out"
  have bfL: "\<forall>l\<in>set ?L. \<forall>c\<in>set l. \<not> is_linebreak c"
    by (auto dest: normalized_lines_no_break)
  have bfM: "\<forall>l\<in>set ?M. \<forall>c\<in>set l. \<not> is_linebreak c"
    by (auto dest: normalized_lines_no_break)
  have S: "?S = (if ?L \<noteq> [] \<and> last ?L = [] then butlast ?L else ?L)"
    unfolding cleanup_stdout_lines [of s] by (rule splitlines_join [OF bfL])
  have join_eq: "join [10] ?M = join [10] ?L"
    using idem by (simp add: cleanup_stdout_lines)
  have "splitlines (join [10] ?M) = (if ?M \<noteq> [] \<and> last ?M = [] then butlast ?M else ?M)"
    by (rule splitlines_join [OF bfM])
  moreover have "splitlines (join [10] ?M) = ?S"
    unfolding join_eq by (simp add: cleanup_stdout_lines)
  ultimately have SM: "?S = (if ?M \<noteq> [] \<and> last ?M = [] then butlast ?M else ?M)"
    by simp
  have lenM: "length ?M \<le> length ?S"
    by (rule length_normalized_lines_le)
  have M_ok: "\<not> (?M \<noteq> [] \<and> last ?M = [])"
  proof
    assume a: "?M \<noteq> [] \<and> last ?M = []"
    with SM have "length ?S = length ?M - 1" by simp
    with a lenM show False by (cases ?M) simp_all
  qed
  with SM have MS: "?S = ?M" by simp
  show ?thesis
  proof (cases "?L \<noteq> [] \<and> last ?L = []")
    case True
    then have L: "?L = butlast ?L @ [[]]"
      using append_butlast_last_id [of ?L] by simp
    from True S MS have M: "?M = butlast ?L" by simp
    have "butlast ?L = []"
    proof (rule ccontr)
      assume "butlast ?L \<noteq> []"
      then have "join [10] (butlast ?L @ [[]]) = join [10] (butlast ?L) @ [10]"
        by (rule join_snoc_empty)
      with L have "join [10] ?L = join [10] ?M @ [10]"
        unfolding M by simp
      with join_eq show False by simp
    qed
    with L have "?L = [[]]" by simp
    then have out: "?out = []" by (simp add: cleanup_stdout_lines)
    then show ?thesis by (simp add: splitlines_def)
  next
    case False
    with S MS have M_eq: "?M = ?L" and S_eq: "?S = ?L" by simp_all
    have nl: "?out = [] \<or> last ?out \<noteq> 10"
    proof (cases "?L = []")
      case True
      then show ?thesis by (simp add: cleanup_stdout_lines)
    next
      case ne: False
      with False have "last ?L \<noteq> []" by simp
      with ne have "last ?out = last (last ?L)"
        by (simp add: cleanup_stdout_lines last_join)
      moreover have "last (last ?L) \<in> set (last ?L)" "last ?L \<in> set ?L"
        using ne \<open>last ?L \<noteq> []\<close> by simp_all
      ultimately have "\<not> is_linebreak (last ?out)"
        using bfL by auto
      then show ?thesis by auto
    qed
    let ?xs = "map rstrip (map (rstrip_chars spinner) ?L)"
    have "remdups_adj ?xs = ?L"
      using M_eq unfolding normalized_lines_def [of ?out] S_eq
      by (simp add: groupby_keys_remdups_adj)
    then have "length (remdups_adj ?xs) = length ?xs" by simp
    then have "distinct_adj ?xs"
      by (rule distinct_adj_conv_length_remdups_adj [THEN iffD2])
    then have "remdups_adj ?xs = ?xs"
      by (rule distinct_adj_altdef [THEN iffD1])
    with \<open>remdups_adj ?xs = ?L\<close> have "?xs = ?L"
      by (simp only:)
    then have unchanged: "map (rstrip \<circ> rstrip_chars spinner) ?L = ?L"
      by (simp only: map_map)
    have spin: "\<forall>l\<in>set ?S. l = [] \<or> last l \<notin> set spinner"
      unfolding S_eq
    proof (intro ballI, rule ccontr)
      fix l assume l: "l \<in> set ?L" and "\<not> (l = [] \<or> last l \<notin> set spinner)"
      then have "length (rstrip_chars spinner l) < length l"
        unfolding rstrip_chars_def by (intro rstrip_pred_shorter) simp_all
      with length_rstrip_le [of "rstrip_chars spinner l"]
      have "length (rstrip (rstrip_chars spinner l)) < length l" by simp
      moreover from map_eq_self_D [OF unchanged l] have "rstrip (rstrip_chars spinner l) = l"
        by simp
      ultimately show False by simp
    qed
    from spin nl show ?thesis by simp
  qed
qed

text \<open>
  C2 (as stated, refuted): on the two redraw frames of the example the normalizer does
  not return the single line \<^verbatim>\<open>"Removing snap abc"\<close>.
\<close>

theorem cleanup_stdout_example_not_single_line:
  "cleanup_stdout (13 # str ''Removing snap abc     /'' @ 13 # str ''Removing snap abc     -'')
     \<noteq> str ''Removing snap abc''"
  by (simp add: eval_defs)

text \<open>
  C2 (amended): on that input the normalizer returns \<^verbatim>\<open>"\nRemoving snap abc"\<close>: the empty
  line before the first carriage return, a newline, and the line
  \<^verbatim>\<open>"Removing snap abc"\<close> once, without spinner glyphs and trailing blanks.
\<close>

theorem cleanup_stdout_example:
  "cleanup_stdout (13 # str ''Removing snap abc     /'' @ 13 # str ''Removing snap abc     -'')
     = 10 # str ''Removing snap abc''"
  by (simp add: eval_defs)

text \<open>
  C6 (as stated, refuted): an input without carriage returns and without consecutive
  duplicate lines comes back with only the trailing whitespace of each line trimmed.
  The input \<^verbatim>\<open>"a-"\<close> is such an input and has no trailing whitespace, but the
  normalizer returns \<^verbatim>\<open>"a"\<close>: the hyphen is a spinner glyph. The lines of
  \<^verbatim>\<open>"a\na "\<close> differ, but not after trimming, and the normalizer returns \<^verbatim>\<open>"a"\<close>,
  one line instead of two.
\<close>

theorem cleanup_stdout_trims_more:
  "13 \<notin> set (str ''a-'') \<and> distinct_adj (splitlines (str ''a-'')) \<and>
   trimmed_lines (str ''a-'') = str ''a-'' \<and>
   cleanup_stdout (str ''a-'') = str ''a'' \<and>
   cleanup_stdout (str ''a-'') \<noteq> trimmed_lines (str ''a-'') \<and>
   13 \<notin> set (str ''a'' @ [10] @ str ''a '') \<and>
   distinct_adj (splitlines (str ''a'' @ [10] @ str ''a '')) \<and>
   trimmed_lines (str ''a'' @ [10] @ str ''a '') = str ''a'' @ [10] @ str ''a'' \<and>
   cleanup_stdout (str ''a'' @ [10] @ str ''a '') = str ''a'' \<and>
   cleanup_stdout (str ''a'' @ [10] @ str ''a '') \<noteq> trimmed_lines (str ''a'' @ [10] @ str ''a '')"
  by (simp add: eval_defs trimmed_lines_def)

text \<open>
  C6 (amended): for every input string that contains no carriage return, in which no
  line ends in a spinner glyph and no two consecutive lines are equal once their trailing
  whitespace is trimmed, the normalizer returns the lines of the input, each with its
  trailing whitespace trimmed, joined by newlines.
\<close>

theorem cleanup_stdout_only_trims:
  assumes "13 \<notin> set s"
    and spin: "\<forall>l\<in>set (splitlines s). l = [] \<or> last l \<notin> set spinner"
    and dist: "distinct_adj (map rstrip (splitlines s))"
  shows "cleanup_stdout s = trimmed_lines s"
proof -
  have unspun: "map (rstrip_chars spinner) (splitlines s) = splitlines s"
    using spin by (intro map_idI rstrip_chars_id) blast
  have kept: "groupby_keys (map rstrip (splitlines s)) = map rstrip (splitlines s)"
    using dist by (simp add: groupby_keys_remdups_adj distinct_adj_altdef)
  show ?thesis
    unfolding cleanup_stdout_def trimmed_lines_def Let_def by (simp only: unspun kept)
qed

theorem cleanup_stdout_only_trims_witness:
  "13 \<notin> set (str ''abc  '' @ [10] @ str ''- de'') \<and>
   splitlines (str ''abc  '' @ [10] @ str ''- de'') = [str ''abc  '', str ''- de''] \<and>
   last (str ''abc  '') \<notin> set spinner \<and> last (str ''- de'') \<notin> set spinner \<and>
   map rstrip [str ''abc  '', str ''- de''] = [str ''abc'', str ''- de''] \<and>
   str ''abc'' \<noteq> str ''- de'' \<and>
   cleanup_stdout (str ''abc  '' @ [10] @ str ''- de'') =
     trimmed_lines (str ''abc  '' @ [10] @ str ''- de'') \<and>
   trimmed_lines (str ''abc  '' @ [10] @ str ''- de'') = str ''abc'' @ [10] @ str ''- de''"
proof -
  let ?s = "str ''abc  '' @ [10] @ str ''- de''"
  have cr: "13 \<notin> set ?s"
    by (simp add: str_def)
  have lines: "splitlines ?s = [str ''abc  '', str ''- de'']"
    by (simp add: splitlines_def str_def is_linebreak_def)
  have glyphs: "last (str ''abc  '') \<notin> set spinner" "last (str ''- de'') \<notin> set spinner"
    by (simp_all add: str_def spinner_def)
  have trimmed: "map rstrip [str ''abc  '', str ''- de''] = [str ''abc'', str ''- de'']"
    by (simp add: rstrip_def str_def is_space_def)
  have differ: "str ''abc'' \<noteq> str ''- de''"
    by (simp add: str_def)
  have spin: "\<forall>l\<in>set (splitlines ?s). l = [] \<or> last l \<notin> set spinner"
    unfolding lines using glyphs by simp
  have dist: "distinct_adj (map rstrip (splitlines ?s))"
    unfolding lines trimmed using differ by simp
  have "trimmed_lines ?s = str ''abc'' @ [10] @ str ''- de''"
    unfolding trimmed_lines_def lines trimmed by simp
  with cleanup_stdout_only_trims [OF cr spin dist] cr lines glyphs trimmed differ
  show ?thesis by simp
qed

text \<open>
  The conditions on the lines are also necessary, with or without carriage returns in
  the input.
\<close>

lemma cleanup_stdout_only_trims_only_if:
  assumes eq: "cleanup_stdout s = trimmed_lines s"
  shows "(\<forall>l\<in>set (splitlines s). l = [] \<or> last l \<notin> set spinner) \<and>
         distinct_adj (map rstrip (splitlines s))"
proof -
  let ?S = "splitlines s"
  let ?X = "map rstrip (map (rstrip_chars spinner) ?S)"
  let ?T = "map rstrip ?S"
  have nbS: "\<forall>l\<in>set ?S. 10 \<notin> set l"
    using splitlines_no_break by fastforce
  have nbT: "\<forall>l\<in>set ?T. 10 \<notin> set l"
    using nbS set_rstrip by fastforce
  have nbX: "\<forall>l\<in>set (remdups_adj ?X). 10 \<notin> set l"
    using nbS set_rstrip set_rstrip_chars by fastforce
  have joins: "join [10] (remdups_adj ?X) = join [10] ?T"
    using eq by (simp add: cleanup_stdout_def trimmed_lines_def Let_def groupby_keys_remdups_adj)
  have len_le: "length (remdups_adj ?X) \<le> length ?T"
    using remdups_adj_length [of ?X] by simp
  have len: "length (remdups_adj ?X) = length ?T"
  proof (rule ccontr)
    assume "length (remdups_adj ?X) \<noteq> length ?T"
    with len_le have lt: "length (remdups_adj ?X) < length ?T" by simp
    have "length (filter (\<lambda>c. c = 10) (join [10] (remdups_adj ?X))) = length (remdups_adj ?X) - 1"
      by (rule count_LF_join [OF nbX])
    moreover have "length (filter (\<lambda>c. c = 10) (join [10] ?T)) = length ?T - 1"
      by (rule count_LF_join [OF nbT])
    ultimately have "length (remdups_adj ?X) - 1 = length ?T - 1"
      using joins by simp
    with lt have "remdups_adj ?X = []" by (cases "remdups_adj ?X") simp_all
    then have "?S = []" by simp
    with lt show False by simp
  qed
  have XT: "remdups_adj ?X = ?T"
    by (rule join_inject [OF nbX nbT len joins])
  have "length (remdups_adj ?X) = length ?X"
    using len by simp
  then have "distinct_adj ?X"
    by (rule distinct_adj_conv_length_remdups_adj [THEN iffD2])
  then have "remdups_adj ?X = ?X"
    by (rule distinct_adj_altdef [THEN iffD1])
  with XT have X_eq: "?X = ?T" by (simp only:)
  have dist: "distinct_adj ?T"
    using \<open>distinct_adj ?X\<close> unfolding X_eq .
  have spin: "\<forall>l\<in>set ?S. l = [] \<or> last l \<notin> set spinner"
  proof (intro ballI, rule ccontr)
    fix l assume l: "l \<in> set ?S" and bad: "\<not> (l = [] \<or> last l \<notin> set spinner)"
    then have "length (rstrip_chars spinner l) < length l"
      unfolding rstrip_chars_def by (intro rstrip_pred_shorter) simp_all
    with length_rstrip_le [of "rstrip_chars spinner l"]
    have "length (rstrip (rstrip_chars spinner l)) < length l" by simp
    moreover have "\<not> is_space (last l)"
      using bad by (auto simp: spinner_def is_space_def)
    then have "rstrip l = l"
      unfolding rstrip_def by (intro rstrip_pred_id) simp
    moreover have "rstrip (rstrip_chars spinner l) = rstrip l"
    proof -
      from X_eq have "map (rstrip \<circ> rstrip_chars spinner) ?S = map rstrip ?S"
        by (simp only: map_map)
      then have "\<forall>l\<in>set ?S. (rstrip \<circ> rstrip_chars spinner) l = rstrip l"
        by (simp only: map_eq_conv)
      with l show ?thesis by simp
    qed
    ultimately show False by simp
  qed
  from spin dist show ?thesis by simp
qed

section \<open>Claims about the presence prober\<close>

text \<open>
  C5 (as stated, refuted): the presence prober returns a boolean, and \<^verbatim>\<open>False\<close> when
  snapd is absent. On a host where \<^verbatim>\<open>pkg.info_installed\<close> answers with an empty
  dictionary the prober returns that dictionary, which is falsy but not \<^verbatim>\<open>False\<close>.
\<close>

theorem snapd_is_installed_not_boolean:
  "fst (snapd_is_installed env_snapd_absent) = PyDict [] \<and>
   \<not> truthy (fst (snapd_is_installed env_snapd_absent)) \<and>
   fst (snapd_is_installed env_snapd_absent) \<noteq> PyBool False \<and>
   fst (snapd_is_installed env_snapd_absent) \<noteq> PyBool True"
  by (simp add: snapd_is_installed_def env_snapd_absent_def)

text \<open>
  C5 (amended): the presence prober makes one call, \<^verbatim>\<open>pkg.info_installed\<close> for
  \<^verbatim>\<open>"snapd"\<close> with \<^verbatim>\<open>failhard=False\<close>, and returns the value of that call unchanged;
  the value need not be a boolean. Both operations use it through its truth value only:
  they return the same record and make the same calls as on a host whose package query
  answers with the truth value of that value, and when the value is falsy they return
  result \<^verbatim>\<open>True\<close> and empty changes and make no further call.
\<close>

theorem snapd_is_installed_truth_value:
  "fst (snapd_is_installed e) = pkg_info_installed e (str ''snapd'') False \<and>
   snd (snapd_is_installed e) = [PkgInfoInstalled (str ''snapd'') False] \<and>
   fst (snapd_is_installed (answering_bool e)) = PyBool (truthy (fst (snapd_is_installed e))) \<and>
   purged (answering_bool e) n = purged e n \<and>
   assert_all_removed (answering_bool e) n = assert_all_removed e n \<and>
   (\<not> truthy (fst (snapd_is_installed e)) \<longrightarrow>
      result (fst (purged e n)) = Some True \<and> changes (fst (purged e n)) = Map.empty \<and>
      snd (purged e n) = [PkgInfoInstalled (str ''snapd'') False] \<and>
      result (fst (assert_all_removed e n)) = Some True \<and>
      changes (fst (assert_all_removed e n)) = Map.empty \<and>
      snd (assert_all_removed e n) = [PkgInfoInstalled (str ''snapd'') False])"
proof -
  have probe: "snapd_is_installed (answering_bool e) =
      (PyBool (truthy (fst (snapd_is_installed e))), snd (snapd_is_installed e))"
    by (simp add: snapd_is_installed_def answering_bool_def)
  have rest: "opts_test (answering_bool e) = opts_test e"
    "cmd_run_all (answering_bool e) = cmd_run_all e"
    "cmd_retcode (answering_bool e) = cmd_retcode e"
    by (simp_all add: answering_bool_def)
  have p: "purged (answering_bool e) n = purged e n"
    unfolding purged_def probe rest by (simp add: snapd_is_installed_def Let_def)
  have a: "assert_all_removed (answering_bool e) n = assert_all_removed e n"
    unfolding assert_all_removed_def probe rest by (simp add: snapd_is_installed_def Let_def)
  have absent: "\<not> truthy (fst (snapd_is_installed e)) \<longrightarrow>
      result (fst (purged e n)) = Some True \<and> changes (fst (purged e n)) = Map.empty \<and>
      snd (purged e n) = [PkgInfoInstalled (str ''snapd'') False] \<and>
      result (fst (assert_all_removed e n)) = Some True \<and>
      changes (fst (assert_all_removed e n)) = Map.empty \<and>
      snd (assert_all_removed e n) = [PkgInfoInstalled (str ''snapd'') False]"
    by (simp add: purged_def assert_all_removed_def snapd_is_installed_def Let_def)
  from probe p a absent show ?thesis
    by (simp add: snapd_is_installed_def)
qed

theorem snapd_is_installed_truth_value_witness:
  "fst (snapd_is_installed env_snapd_absent) = PyDict [] \<and>
   \<not> truthy (fst (snapd_is_installed env_snapd_absent)) \<and>
   fst (snapd_is_installed (answering_bool env_snapd_absent)) = PyBool False \<and>
   purged (answering_bool env_snapd_absent) (str ''foo'') = purged env_snapd_absent (str ''foo'') \<and>
   assert_all_removed (answering_bool env_snapd_absent) (str ''foo'') =
     assert_all_removed env_snapd_absent (str ''foo'') \<and>
   result (fst (purged env_snapd_absent (str ''foo''))) = Some True \<and>
   changes (fst (purged env_snapd_absent (str ''foo''))) = Map.empty \<and>
   snd (purged env_snapd_absent (str ''foo'')) = [PkgInfoInstalled (str ''snapd'') False] \<and>
   result (fst (assert_all_removed env_snapd_absent (str ''foo''))) = Some True \<and>
   changes (fst (assert_all_removed env_snapd_absent (str ''foo''))) = Map.empty \<and>
   snd (assert_all_removed env_snapd_absent (str ''foo'')) = [PkgInfoInstalled (str ''snapd'') False]"
proof -
  have dict: "fst (snapd_is_installed env_snapd_absent) = PyDict []"
    by (simp add: snapd_is_installed_def env_snapd_absent_def)
  then have falsy: "\<not> truthy (fst (snapd_is_installed env_snapd_absent))"
    by simp
  from snapd_is_installed_truth_value [of env_snapd_absent "str ''foo''"] dict falsy
  show ?thesis by simp
qed

section \<open>Claims about the operations\<close>

text \<open>
  C3: for every name, when the removal command is run (snapd is installed and the run is
  not a test run) and its stderr is exactly \<^verbatim>\<open>snap "<name>" is not installed\<close>, the
  purge returns result \<^verbatim>\<open>True\<close> and empty changes, whatever the exit code of the
  removal command is.
\<close>

theorem purged_already_removed:
  assumes \<open>truthy (fst (snapd_is_installed e))\<close> and \<open>\<not> opts_test e\<close>
    and \<open>stderr (cmd_run_all e (str ''snap remove --purge '' @ n)) =
           str ''snap "'' @ n @ str ''" is not installed''\<close>
  shows \<open>result (fst (purged e n)) = Some True \<and> changes (fst (purged e n)) = Map.empty\<close>
  using assms by (simp add: purged_def snapd_is_installed_def Let_def)

theorem purged_already_removed_witness:
  \<open>truthy (fst (snapd_is_installed env_not_installed_nonzero)) \<and>
   \<not> opts_test env_not_installed_nonzero \<and>
   stderr (cmd_run_all env_not_installed_nonzero (str ''snap remove --purge '' @ str ''foo'')) =
     str ''snap "'' @ str ''foo'' @ str ''" is not installed'' \<and>
   retcode (cmd_run_all env_not_installed_nonzero (str ''snap remove --purge '' @ str ''foo'')) = 1 \<and>
   result (fst (purged env_not_installed_nonzero (str ''foo''))) = Some True \<and>
   changes (fst (purged env_not_installed_nonzero (str ''foo''))) = Map.empty\<close>
  using purged_already_removed [of env_not_installed_nonzero "str ''foo''"]
  by (simp add: env_not_installed_nonzero_def snapd_is_installed_def str_def)

text \<open>
  C4: for every name, if snapd is installed, the run is not a test run, the removal
  command exits with code zero, its stderr is not the already-removed pattern, and
  \<^verbatim>\<open>snap list <name>\<close> exits non-zero, then the purge returns result \<^verbatim>\<open>True\<close> and the
  changes \<^verbatim>\<open>{old: "installed", new: "removed", stdout: <normalized stdout>, stderr: <raw stderr>}\<close>.
\<close>

theorem purged_success:
  assumes \<open>truthy (fst (snapd_is_installed e))\<close> and \<open>\<not> opts_test e\<close>
    and \<open>retcode (cmd_run_all e (str ''snap remove --purge '' @ n)) = 0\<close>
    and \<open>stderr (cmd_run_all e (str ''snap remove --purge '' @ n)) \<noteq>
           str ''snap "'' @ n @ str ''" is not installed''\<close>
    and \<open>cmd_retcode e (str ''snap list '' @ n) True \<noteq> 0\<close>
  shows \<open>result (fst (purged e n)) = Some True \<and>
         changes (fst (purged e n)) =
           [str ''old'' \<mapsto> str ''installed'', str ''new'' \<mapsto> str ''removed'',
            str ''stdout'' \<mapsto>
              cleanup_stdout (stdout (cmd_run_all e (str ''snap remove --purge '' @ n))),
            str ''stderr'' \<mapsto> stderr (cmd_run_all e (str ''snap remove --purge '' @ n))]\<close>
  using assms by (simp add: purged_def snapd_is_installed_def Let_def)

theorem purged_success_witness:
  \<open>truthy (fst (snapd_is_installed env_purge_succeeds)) \<and>
   \<not> opts_test env_purge_succeeds \<and>
   retcode (cmd_run_all env_purge_succeeds (str ''snap remove --purge '' @ str ''abc'')) = 0 \<and>
   stderr (cmd_run_all env_purge_succeeds (str ''snap remove --purge '' @ str ''abc'')) \<noteq>
     str ''snap "'' @ str ''abc'' @ str ''" is not installed'' \<and>
   cmd_retcode env_purge_succeeds (str ''snap list '' @ str ''abc'') True \<noteq> 0 \<and>
   result (fst (purged env_purge_succeeds (str ''abc''))) = Some True \<and>
   changes (fst (purged env_purge_succeeds (str ''abc''))) =
     [str ''old'' \<mapsto> str ''installed'', str ''new'' \<mapsto> str ''removed'',
      str ''stdout'' \<mapsto> cleanup_stdout example_raw_stdout,
      str ''stderr'' \<mapsto> []]\<close>
  using purged_success [of env_purge_succeeds "str ''abc''"]
  by (simp add: env_purge_succeeds_def snapd_is_installed_def str_def)

text \<open>
  C7: for every name, if the presence probe reports snapd absent (its value is falsy),
  the purge and the assertion both return result \<^verbatim>\<open>True\<close> and empty changes, and the
  probe is the only call they make: no command is run.
\<close>

theorem absent_subsystem_nothing_to_do:
  assumes \<open>\<not> truthy (fst (snapd_is_installed e))\<close>
  shows \<open>result (fst (purged e n)) = Some True \<and> changes (fst (purged e n)) = Map.empty \<and>
         snd (purged e n) = [PkgInfoInstalled (str ''snapd'') False] \<and>
         result (fst (assert_all_removed e n)) = Some True \<and>
         changes (fst (assert_all_removed e n)) = Map.empty \<and>
         snd (assert_all_removed e n) = [PkgInfoInstalled (str ''snapd'') False]\<close>
  using assms by (simp add: purged_def assert_all_removed_def snapd_is_installed_def Let_def)

theorem absent_subsystem_nothing_to_do_witness:
  \<open>\<not> truthy (fst (snapd_is_installed env_snapd_absent)) \<and>
   result (fst (purged env_snapd_absent (str ''foo''))) = Some True \<and>
   changes (fst (purged env_snapd_absent (str ''foo''))) = Map.empty \<and>
   snd (purged env_snapd_absent (str ''foo'')) = [PkgInfoInstalled (str ''snapd'') False] \<and>
   result (fst (assert_all_removed env_snapd_absent (str ''assert_all_removed''))) = Some True \<and>
   changes (fst (assert_all_removed env_snapd_absent (str ''assert_all_removed''))) = Map.empty \<and>
   snd (assert_all_removed env_snapd_absent (str ''assert_all_removed'')) =
     [PkgInfoInstalled (str ''snapd'') False]\<close>
proof -
  have absent: \<open>\<not> truthy (fst (snapd_is_installed env_snapd_absent))\<close>
    by (simp add: snapd_is_installed_def env_snapd_absent_def)
  from absent_subsystem_nothing_to_do [OF absent, of "str ''foo''"]
    absent_subsystem_nothing_to_do [OF absent, of "str ''assert_all_removed''"] absent
  show ?thesis by simp
qed

text \<open>
  C8: in every branch of the purge and of the assertion, the comment of the returned
  record is a non-empty string.
\<close>

theorem comment_never_empty:
  \<open>comment (fst (purged e n)) \<noteq> [] \<and> comment (fst (assert_all_removed e n)) \<noteq> []\<close>
  by (simp add: purged_def assert_all_removed_def snapd_is_installed_def Let_def
      join_Cons_neq_Nil)

text \<open>
  C9: the assertion is read-only: whatever the probe and the list query answer, the
  changes of the returned record are empty, and the only command the assertion runs is
  \<^verbatim>\<open>snap list\<close> (once, and only when snapd is installed).
\<close>

theorem assert_all_removed_read_only:
  \<open>changes (fst (assert_all_removed e n)) = Map.empty \<and>
   snd (assert_all_removed e n) =
     PkgInfoInstalled (str ''snapd'') False #
       (if truthy (fst (snapd_is_installed e)) then [CmdRunAll (str ''snap list'')] else [])\<close>
  by (simp add: assert_all_removed_def snapd_is_installed_def Let_def)

text \<open>
  C10: when snapd is installed, the purge returns result \<^verbatim>\<open>None\<close> exactly when the
  test flag is set; with the flag off the result is \<^verbatim>\<open>True\<close> or \<^verbatim>\<open>False\<close>.
\<close>

theorem purged_result_None_iff_test:
  \<open>truthy (fst (snapd_is_installed e)) \<Longrightarrow>
   (result (fst (purged e n)) = None) = opts_test e \<and>
   (opts_test e \<or> result (fst (purged e n)) = Some True \<or>
    result (fst (purged e n)) = Some False)\<close>
  by (auto simp add: purged_def snapd_is_installed_def Let_def)

theorem purged_result_None_iff_test_witness:
  \<open>truthy (fst (snapd_is_installed env_test_mode)) \<and> opts_test env_test_mode \<and>
   result (fst (purged env_test_mode (str ''foo''))) = None \<and>
   truthy (fst (snapd_is_installed env_purge_succeeds)) \<and> \<not> opts_test env_purge_succeeds \<and>
   result (fst (purged env_purge_succeeds (str ''foo''))) = Some True\<close>
proof -
  have present: \<open>truthy (fst (snapd_is_installed env_test_mode))\<close>
    by (simp add: snapd_is_installed_def env_test_mode_def)
  have test: \<open>opts_test env_test_mode\<close>
    by (simp add: env_test_mode_def)
  have present': \<open>truthy (fst (snapd_is_installed env_purge_succeeds))\<close>
    by (simp add: snapd_is_installed_def env_purge_succeeds_def)
  have no_test: \<open>\<not> opts_test env_purge_succeeds\<close>
    by (simp add: env_purge_succeeds_def)
  have \<open>result (fst (purged env_purge_succeeds (str ''foo''))) = Some True\<close>
    by (simp add: purged_def snapd_is_installed_def env_purge_succeeds_def Let_def str_def)
  with purged_result_None_iff_test [OF present, of "str ''foo''"]
    purged_result_None_iff_test [OF present', of "str ''foo''"] present test present' no_test
  show ?thesis by simp
qed

end
